theory Spec2Isabelle
  imports Complex_Main "HOL-Library.Word"
begin

unbundle bit_operations_syntax

section \<open>The collaborators of FieldFixed\<close>

text \<open>
  \<^verbatim>\<open>FieldFixed.h\<close> includes \<^verbatim>\<open>Field.h\<close>, which declares the base class \<^verbatim>\<open>Field\<close>, the
  enumeration \<^verbatim>\<open>Result\<close> and the interface \<^verbatim>\<open>MessageBufferInterface\<close>. The parts of it that
  \<^verbatim>\<open>FieldFixed\<close> calls are written here from their names in \<^verbatim>\<open>FieldFixed.h\<close> and from
  the specification.
\<close>

type_synonym byte = "8 word"

text \<open>
  Modelled from the spec: the enumeration \<^verbatim>\<open>Result\<close> of \<^verbatim>\<open>Field.h\<close>. \<^verbatim>\<open>FieldFixed.h\<close> names
  two enumerators, \<^verbatim>\<open>Result::OK\<close> and \<^verbatim>\<open>Result::ERROR_BUFFER_TO_SMALL\<close>; any further
  enumerator the declaration may have is an \<open>OTHER_RESULT\<close>.
\<close>

datatype Result = OK | ERROR_BUFFER_TO_SMALL | OTHER_RESULT nat

text \<open>
  Modelled from the spec: the bounded byte buffer behind \<^verbatim>\<open>MessageBufferInterface\<close>, "an
  ordered sequence of bytes with a fixed maximum length, supporting single-byte push (fails
  if full) and single-byte pop (fails if empty)". The bytes are kept in the order they were
  pushed; \<open>pop\<close> takes the oldest one. \<^verbatim>\<open>get_size()\<close> is the number of bytes held and
  \<^verbatim>\<open>get_max_size()\<close> the fixed maximum length; the remaining capacity of a buffer is the
  difference of the two.
\<close>

record MessageBuffer =
  bytes :: "byte list"
  max_size :: nat

definition get_size :: "MessageBuffer \<Rightarrow> nat" where
  "get_size buffer = length (bytes buffer)"

definition get_max_size :: "MessageBuffer \<Rightarrow> nat" where
  "get_max_size buffer = max_size buffer"

definition remaining_capacity :: "MessageBuffer \<Rightarrow> nat" where
  "remaining_capacity buffer = get_max_size buffer - get_size buffer"

definition push :: "MessageBuffer \<Rightarrow> byte \<Rightarrow> bool \<times> MessageBuffer" where
  "push buffer x =
     (if get_size buffer < get_max_size buffer
      then (True, buffer\<lparr>bytes := bytes buffer @ [x]\<rparr>)
      else (False, buffer))"

text \<open>\<open>pop\<close> returns \<open>None\<close> where the C++ returns \<^verbatim>\<open>false\<close> and leaves its argument alone.\<close>

definition pop :: "MessageBuffer \<Rightarrow> (byte \<times> MessageBuffer) option" where
  "pop buffer =
     (case bytes buffer of
        [] \<Rightarrow> None
      | x # rest \<Rightarrow> Some (x, buffer\<lparr>bytes := rest\<rparr>))"

section \<open>The field\<close>

text \<open>
  The template parameter \<^verbatim>\<open>WIRE_TYPE\<close> is the width \<open>LENGTH('a)\<close> of the word type
  (\<^verbatim>\<open>VAR_UINT_TYPE\<close> is \<open>'a word\<close>; the \<^verbatim>\<open>static_assert\<close> admits 32 and 64 only), and the
  parameter \<^verbatim>\<open>DATA_TYPE\<close> is one of three kinds. \<^verbatim>\<open>_data\<close> is kept as the object
  representation of the \<^verbatim>\<open>DATA_TYPE\<close> value, so that the pointer casts of \<^verbatim>\<open>serialize\<close> and
  \<^verbatim>\<open>deserialize\<close> are the identity and \<open>kind\<close> says how the comparison operators read the
  bits.
\<close>

text \<open>
  Modelled from the spec: \<open>tag_bytes\<close> are the bytes that \<^verbatim>\<open>_serialize_varint(tag(), buffer)\<close>
  of the base class \<^verbatim>\<open>Field\<close> pushes for this field's number and wire type, in order.
\<close>

datatype DATA_TYPE = UNSIGNED | SIGNED | FLOATING

record 'w FieldFixed =
  tag_bytes :: "byte list"
  kind :: DATA_TYPE
  data :: "'w"

definition DEFAULT_VALUE :: "'a::len word" where
  "DEFAULT_VALUE = 0"

definition N_BYTES_IN_FIXED :: "'a::len word FieldFixed \<Rightarrow> nat" where
  "N_BYTES_IN_FIXED f = LENGTH('a) div 8"

definition FieldFixed_new :: "byte list \<Rightarrow> DATA_TYPE \<Rightarrow> 'a::len word FieldFixed" where
  "FieldFixed_new tag k = \<lparr>tag_bytes = tag, kind = k, data = DEFAULT_VALUE\<rparr>"

definition set_value :: "'a::len word FieldFixed \<Rightarrow> 'a word \<Rightarrow> 'a word FieldFixed" where
  "set_value f v = f\<lparr>data := v\<rparr>"

definition get :: "'a::len word FieldFixed \<Rightarrow> 'a word" where
  "get f = data f"

definition clear :: "'a::len word FieldFixed \<Rightarrow> 'a word FieldFixed" where
  "clear f = f\<lparr>data := DEFAULT_VALUE\<rparr>"

definition serialized_data_size :: "'a::len word FieldFixed \<Rightarrow> nat" where
  "serialized_data_size f = N_BYTES_IN_FIXED f"

text \<open>
  Modelled from the spec: \<^verbatim>\<open>Field::serialized_size()\<close>, "the total size needed (tag bytes +
  \<^verbatim>\<open>serialized_data_size()\<close>)".
\<close>

definition serialized_size :: "'a::len word FieldFixed \<Rightarrow> nat" where
  "serialized_size f = length (tag_bytes f) + serialized_data_size f"

text \<open>
  Modelled from the spec: \<^verbatim>\<open>Field::_serialize_varint\<close>, which pushes the bytes of the tag one
  by one; a push into a full buffer fails and leaves the buffer as it is.
\<close>

fun serialize_varint :: "byte list \<Rightarrow> MessageBuffer \<Rightarrow> bool \<times> MessageBuffer" where
  "serialize_varint [] buffer = (True, buffer)"
| "serialize_varint (x # xs) buffer =
     (let (result, buffer') = push buffer x
      in if \<not> result then (False, buffer') else serialize_varint xs buffer')"

subsection \<open>The six instances\<close>

definition fixed64 :: "byte list \<Rightarrow> 64 word FieldFixed" where
  "fixed64 tag = FieldFixed_new tag UNSIGNED"

definition sfixed64 :: "byte list \<Rightarrow> 64 word FieldFixed" where
  "sfixed64 tag = FieldFixed_new tag SIGNED"

definition double64 :: "byte list \<Rightarrow> 64 word FieldFixed" where
  "double64 tag = FieldFixed_new tag FLOATING"

definition fixed32 :: "byte list \<Rightarrow> 32 word FieldFixed" where
  "fixed32 tag = FieldFixed_new tag UNSIGNED"

definition sfixed32 :: "byte list \<Rightarrow> 32 word FieldFixed" where
  "sfixed32 tag = FieldFixed_new tag SIGNED"

definition float32 :: "byte list \<Rightarrow> 32 word FieldFixed" where
  "float32 tag = FieldFixed_new tag FLOATING"

subsection \<open>Comparison with the default value\<close>

text \<open>
  The value of an IEEE 754 binary32 or binary64 bit pattern: a NaN, an infinity with its
  sign, or a rational number. Both zeros have the value 0. The comparison operators of C++
  are false as soon as one operand is a NaN.
\<close>

datatype fp_value = FP_NaN | FP_Inf bool | FP_Fin rat

definition mantissa_bits :: "'a::len word \<Rightarrow> nat" where
  "mantissa_bits w = (if LENGTH('a) = 32 then 23 else 52)"

definition exponent_bits :: "'a::len word \<Rightarrow> nat" where
  "exponent_bits w = LENGTH('a) - 1 - mantissa_bits w"

definition float_value :: "'a::len word \<Rightarrow> fp_value" where
  "float_value w =
     (let m = mantissa_bits w;
          k = exponent_bits w;
          bias = 2 ^ (k - 1) - 1;
          negative = bit w (LENGTH('a) - 1);
          e = unat (take_bit k (drop_bit m w));
          fraction = unat (take_bit m w);
          magnitude =
            (if e = 0 then of_nat fraction * 2 / 2 ^ (bias + m)
             else of_nat (2 ^ m + fraction) * 2 ^ e / 2 ^ (bias + m))
      in if e = 2 ^ k - 1 then (if fraction = 0 then FP_Inf negative else FP_NaN)
         else FP_Fin (if negative then - magnitude else magnitude))"

fun fp_le :: "fp_value \<Rightarrow> fp_value \<Rightarrow> bool" where
  "fp_le FP_NaN y = False"
| "fp_le x FP_NaN = False"
| "fp_le (FP_Inf negative) y = (negative \<or> y = FP_Inf False)"
| "fp_le (FP_Fin x) (FP_Inf negative) = (\<not> negative)"
| "fp_le (FP_Fin x) (FP_Fin y) = (x \<le> y)"

text \<open>
  \<^verbatim>\<open>std::numeric_limits<DATA_TYPE>::epsilon()\<close>: 0 for the integer types, \<open>2\<^sup>-\<^sup>2\<^sup>3\<close> for
  \<^verbatim>\<open>float\<close> and \<open>2\<^sup>-\<^sup>5\<^sup>2\<close> for \<^verbatim>\<open>double\<close>.
\<close>

definition float_epsilon :: "'a::len word \<Rightarrow> rat" where
  "float_epsilon w = 1 / 2 ^ mantissa_bits w"

text \<open>
  The condition under the negation in \<^verbatim>\<open>serialize\<close>:
  \<^verbatim>\<open>(DEFAULT_VALUE + epsilon() >= _data) && (DEFAULT_VALUE - epsilon() <= _data)\<close>.
  For the floating kinds the sum and the difference are exactly \<open>\<epsilon>\<close> and \<open>-\<epsilon>\<close>, both
  representable.
\<close>

definition equals_default :: "'a::len word FieldFixed \<Rightarrow> bool" where
  "equals_default f =
     (case kind f of
        UNSIGNED \<Rightarrow> (DEFAULT_VALUE + 0 \<ge> data f) \<and> (DEFAULT_VALUE - 0 \<le> data f)
      | SIGNED \<Rightarrow>
          (sint (DEFAULT_VALUE :: 'a word) + 0 \<ge> sint (data f)) \<and>
          (sint (DEFAULT_VALUE :: 'a word) - 0 \<le> sint (data f))
      | FLOATING \<Rightarrow>
          fp_le (float_value (data f)) (FP_Fin (0 + float_epsilon (data f))) \<and>
          fp_le (FP_Fin (0 - float_epsilon (data f))) (float_value (data f)))"

subsection \<open>Packing and unpacking\<close>

text \<open>
  The loops of \<^verbatim>\<open>_serialize_fixed\<close> and \<^verbatim>\<open>_deserialize_fixed\<close>. The counter \<open>i\<close> is a
  \<^verbatim>\<open>uint8_t\<close> in the source; it stops at 32 or 64 and never wraps.
\<close>

function serialize_fixed_loop ::
  "nat \<Rightarrow> 'a::len word \<Rightarrow> MessageBuffer \<Rightarrow> bool \<times> MessageBuffer" where
  "serialize_fixed_loop i v buffer =
     (if i < LENGTH('a) then
        (let (result, buffer') = push buffer (ucast (drop_bit i v AND 0x00FF))
         in if \<not> result then (False, buffer')
            else serialize_fixed_loop (i + 8) v buffer')
      else (True, buffer))"
  by pat_completeness auto
termination
  by (relation "measure (\<lambda>(i, v, buffer). LENGTH('a) - i)") auto

definition serialize_fixed :: "'a::len word \<Rightarrow> MessageBuffer \<Rightarrow> bool \<times> MessageBuffer" where
  "serialize_fixed v buffer = serialize_fixed_loop 0 v buffer"

function deserialize_fixed_loop ::
  "nat \<Rightarrow> 'a::len word \<Rightarrow> MessageBuffer \<Rightarrow> bool \<times> 'a word \<times> MessageBuffer" where
  "deserialize_fixed_loop i temp_value buffer =
     (if i < LENGTH('a) then
        (case pop buffer of
           Some (byte, buffer') \<Rightarrow>
             deserialize_fixed_loop (i + 8) (temp_value OR push_bit i (ucast byte)) buffer'
         | None \<Rightarrow> (False, temp_value, buffer))
      else (True, temp_value, buffer))"
  by pat_completeness auto
termination
  by (relation "measure (\<lambda>(i, t, buffer). LENGTH('a) - i)") auto

definition deserialize_fixed ::
  "'a::len word \<Rightarrow> MessageBuffer \<Rightarrow> bool \<times> 'a word \<times> MessageBuffer" where
  "deserialize_fixed v buffer =
     (let (result, temp_value, buffer') = deserialize_fixed_loop 0 0 buffer
      in (result, if result then temp_value else v, buffer'))"

subsection \<open>serialize and deserialize\<close>

definition serialize :: "'a::len word FieldFixed \<Rightarrow> MessageBuffer \<Rightarrow> Result \<times> MessageBuffer" where
  "serialize f buffer =
     (if \<not> equals_default f then
        (if serialized_size f \<le> get_max_size buffer then
           (let (tag_written, buffer1) = serialize_varint (tag_bytes f) buffer;
                (data_written, buffer2) = serialize_fixed (data f) buffer1
            in (OK, buffer2))
         else (ERROR_BUFFER_TO_SMALL, buffer))
      else (OK, buffer))"

definition deserialize ::
  "'a::len word FieldFixed \<Rightarrow> MessageBuffer \<Rightarrow> Result \<times> 'a word FieldFixed \<times> MessageBuffer" where
  "deserialize f buffer =
     (if N_BYTES_IN_FIXED f \<le> get_size buffer then
        (let (result, d, buffer') = deserialize_fixed 0 buffer
         in if result then (OK, f\<lparr>data := d\<rparr>, buffer')
            else (ERROR_BUFFER_TO_SMALL, f, buffer'))
      else (ERROR_BUFFER_TO_SMALL, f, buffer))"

text \<open>
  The bytes of a value in the order of the specification: for \<open>i\<close> from 0 to \<open>W - 1\<close> in
  steps of 8, the byte \<^verbatim>\<open>(value >> i) & 0xFF\<close>.
\<close>

definition little_endian :: "'a::len word \<Rightarrow> byte list" where
  "little_endian v = map (\<lambda>k. ucast (drop_bit (8 * k) v AND 0xFF)) [0..<LENGTH('a) div 8]"


section \<open>Properties of the buffer and of the two loops\<close>

lemma take_bit_step:
  "take_bit i v OR push_bit i (ucast (ucast (drop_bit i v AND 0xFF) :: 8 word)) = take_bit (i + 8) (v::'a::len word)"
proof -
  have m: "(0xFF :: 'a word) = mask 8" by (simp add: mask_eq_exp_minus_1)
  show ?thesis
    unfolding m
    apply (rule bit_eqI)
    apply (simp add: bit_simps)
    apply (auto simp: not_less)
    done
qed

lemma push_room:
  "length (bytes b) < max_size b \<Longrightarrow> push b x = (True, b\<lparr>bytes := bytes b @ [x]\<rparr>)"
  by (simp add: push_def get_size_def get_max_size_def)

lemma push_full:
  "max_size b \<le> length (bytes b) \<Longrightarrow> push b x = (False, b)"
  by (simp add: push_def get_size_def get_max_size_def)


lemma serialize_fixed_loop_room:
  fixes v :: "'a::len word"
  assumes len: "LENGTH('a) = 8 * n"
  shows "k \<le> n \<Longrightarrow> length (bytes b) + (n - k) \<le> max_size b \<Longrightarrow>
         serialize_fixed_loop (8 * k) v b =
           (True, b\<lparr>bytes := bytes b @ map (\<lambda>j. ucast (drop_bit (8 * j) v AND 0xFF)) [k..<n]\<rparr>)"
proof (induction "n - k" arbitrary: k b)
  case 0
  then have "k = n" by simp
  then show ?case
    by (subst serialize_fixed_loop.simps) (simp add: len)
next
  case (Suc m)
  then have kn: "k < n" by simp
  let ?x = "ucast (drop_bit (8 * k) v AND 0xFF) :: byte"
  let ?b = "b\<lparr>bytes := bytes b @ [?x]\<rparr>"
  have p: "push b ?x = (True, ?b)"
    using Suc.prems kn by (intro push_room) simp
  have "m = n - Suc k" using Suc.hyps(2) by simp
  moreover have "Suc k \<le> n" using kn by simp
  moreover have "length (bytes ?b) + (n - Suc k) \<le> max_size ?b"
    using Suc.prems kn by simp
  ultimately have ih: "serialize_fixed_loop (8 * Suc k) v ?b =
      (True, ?b\<lparr>bytes := bytes ?b @ map (\<lambda>j. ucast (drop_bit (8 * j) v AND 0xFF)) [Suc k..<n]\<rparr>)"
    by (rule Suc.hyps(1))
  have "serialize_fixed_loop (8 * k) v b = serialize_fixed_loop (8 * Suc k) v ?b"
    using kn by (subst serialize_fixed_loop.simps) (simp add: len p add.commute)
  with ih show ?case
    using kn by (simp add: upt_conv_Cons)
qed

lemma serialize_fixed_room:
  fixes v :: "'a::len word"
  assumes "8 dvd LENGTH('a)" and "length (bytes b) + LENGTH('a) div 8 \<le> max_size b"
  shows "serialize_fixed v b = (True, b\<lparr>bytes := bytes b @ little_endian v\<rparr>)"
proof -
  from assms(1) obtain n where n: "LENGTH('a) = 8 * n" by (auto simp: dvd_def)
  have "serialize_fixed_loop (8 * 0) v b =
      (True, b\<lparr>bytes := bytes b @ map (\<lambda>j. ucast (drop_bit (8 * j) v AND 0xFF)) [0..<n]\<rparr>)"
    using assms(2) n by (intro serialize_fixed_loop_room) simp_all
  then show ?thesis
    by (simp add: serialize_fixed_def little_endian_def n)
qed

lemma pop_Cons:
  "bytes b = x # rest \<Longrightarrow> pop b = Some (x, b\<lparr>bytes := rest\<rparr>)"
  by (simp add: pop_def)

lemma pop_Nil:
  "bytes b = [] \<Longrightarrow> pop b = None"
  by (simp add: pop_def)

lemma deserialize_fixed_loop_bytes:
  fixes v :: "'a::len word"
  assumes len: "LENGTH('a) = 8 * n"
  shows "k \<le> n \<Longrightarrow>
         bytes b = map (\<lambda>j. ucast (drop_bit (8 * j) v AND 0xFF)) [k..<n] @ rest \<Longrightarrow>
         deserialize_fixed_loop (8 * k) (take_bit (8 * k) v) b = (True, v, b\<lparr>bytes := rest\<rparr>)"
proof (induction "n - k" arbitrary: k b)
  case 0
  then have "k = n" by simp
  moreover have "take_bit (8 * n) v = v"
    by (simp add: len [symmetric] take_bit_word_eq_self)
  ultimately show ?case
    using "0.prems" by (subst deserialize_fixed_loop.simps) (simp add: len)
next
  case (Suc m)
  then have kn: "k < n" by simp
  let ?x = "ucast (drop_bit (8 * k) v AND 0xFF) :: byte"
  let ?tl = "map (\<lambda>j. ucast (drop_bit (8 * j) v AND 0xFF)) [Suc k..<n] @ rest"
  let ?b = "b\<lparr>bytes := ?tl\<rparr>"
  have "bytes b = ?x # ?tl"
    using Suc.prems kn by (simp add: upt_conv_Cons)
  then have p: "pop b = Some (?x, ?b)" by (rule pop_Cons)
  have "m = n - Suc k" using Suc.hyps(2) by simp
  moreover have "Suc k \<le> n" using kn by simp
  moreover have "bytes ?b = ?tl" by simp
  ultimately have ih: "deserialize_fixed_loop (8 * Suc k) (take_bit (8 * Suc k) v) ?b =
      (True, v, ?b\<lparr>bytes := rest\<rparr>)"
    by (rule Suc.hyps(1))
  have t: "take_bit (8 * k) v OR push_bit (8 * k) (ucast ?x) = take_bit (8 * Suc k) v"
    using take_bit_step [of "8 * k" v] by (simp add: add.commute)
  have "deserialize_fixed_loop (8 * k) (take_bit (8 * k) v) b =
        deserialize_fixed_loop (8 * Suc k) (take_bit (8 * Suc k) v) ?b"
    using kn by (subst deserialize_fixed_loop.simps) (simp add: len p t add.commute)
  with ih show ?case by simp
qed

lemma deserialize_fixed_bytes:
  fixes v :: "'a::len word"
  assumes "8 dvd LENGTH('a)" and "bytes b = little_endian v @ rest"
  shows "deserialize_fixed d b = (True, v, b\<lparr>bytes := rest\<rparr>)"
proof -
  from assms(1) obtain n where n: "LENGTH('a) = 8 * n" by (auto simp: dvd_def)
  have "deserialize_fixed_loop (8 * 0) (take_bit (8 * 0) v) b = (True, v, b\<lparr>bytes := rest\<rparr>)"
    using assms(2) n by (intro deserialize_fixed_loop_bytes) (simp_all add: little_endian_def)
  then show ?thesis
    by (simp add: deserialize_fixed_def)
qed

lemma width_dvd: "LENGTH('a::len) = 32 \<or> LENGTH('a) = 64 \<Longrightarrow> 8 dvd LENGTH('a)"
  by auto




section \<open>What serialize and deserialize return and write\<close>

lemma serialize_result: "fst (serialize f b) = OK \<or> fst (serialize f b) = ERROR_BUFFER_TO_SMALL"
  by (simp add: serialize_def split: prod.splits)

lemma deserialize_result:
  "fst (deserialize f b) = OK \<or> fst (deserialize f b) = ERROR_BUFFER_TO_SMALL"
  by (simp add: deserialize_def split: prod.splits)

lemma deserialize_failure_keeps_field:
  "fst (deserialize f b) \<noteq> OK \<Longrightarrow> fst (snd (deserialize f b)) = f"
  by (simp add: deserialize_def split: prod.splits if_splits)

lemma serialize_error_iff:
  "\<not> equals_default f \<Longrightarrow>
   (fst (serialize f b) = ERROR_BUFFER_TO_SMALL) = (get_max_size b < serialized_size f)"
  by (simp add: serialize_def split: prod.splits)

lemma serialize_error_keeps_buffer:
  "fst (serialize f b) = ERROR_BUFFER_TO_SMALL \<Longrightarrow> snd (serialize f b) = b"
  by (simp add: serialize_def split: prod.splits if_splits)

lemma equals_default_integer:
  fixes f :: "'a::len word FieldFixed"
  shows "kind f \<noteq> FLOATING \<Longrightarrow> equals_default f = (data f = 0)"
  by (cases "kind f") (auto simp: equals_default_def DEFAULT_VALUE_def signed_eq_0_iff)

lemma equals_default_float32_zeros:
  "equals_default (set_value (float32 tag) 0) \<and>
   equals_default (set_value (float32 tag) 0x80000000)"
proof -
  have "float_value (0 :: 32 word) = FP_Fin 0"
    unfolding float_value_def mantissa_bits_def exponent_bits_def Let_def
    by (simp add: unat_eq_nat_uint)
  moreover have "float_value (0x80000000 :: 32 word) = FP_Fin 0"
    unfolding float_value_def mantissa_bits_def exponent_bits_def Let_def
    by (simp add: unat_eq_nat_uint)
  ultimately show ?thesis
    unfolding equals_default_def set_value_def float32_def FieldFixed_new_def
    by (simp add: float_epsilon_def mantissa_bits_def)
qed

lemma push_grows: "length (bytes b) \<le> length (bytes (snd (push b x)))"
  by (simp add: push_def)

lemma serialize_varint_grows:
  "length (bytes b) \<le> length (bytes (snd (serialize_varint xs b)))"
proof (induction xs arbitrary: b)
  case Nil
  show ?case by simp
next
  case (Cons x xs)
  show ?case
  proof (cases "length (bytes b) < max_size b")
    case True
    then have "serialize_varint (x # xs) b = serialize_varint xs (b\<lparr>bytes := bytes b @ [x]\<rparr>)"
      by (simp add: push_room)
    moreover have "length (bytes (b\<lparr>bytes := bytes b @ [x]\<rparr>))
        \<le> length (bytes (snd (serialize_varint xs (b\<lparr>bytes := bytes b @ [x]\<rparr>))))"
      by (rule Cons.IH)
    ultimately show ?thesis by simp
  next
    case False
    then show ?thesis by (simp add: push_full)
  qed
qed

lemma serialize_varint_max_size:
  "max_size (snd (serialize_varint xs b)) = max_size b"
  by (induction xs arbitrary: b) (simp_all add: push_def split: prod.splits)

lemma serialize_fixed_loop_grows:
  "length (bytes b) \<le> length (bytes (snd (serialize_fixed_loop i v b)))"
proof (induction i v b rule: serialize_fixed_loop.induct)
  case (1 i v b)
  let ?x = "ucast (drop_bit i v AND 0xFF) :: byte"
  show ?case
  proof (cases "i < LENGTH('a) \<and> length (bytes b) < max_size b")
    case True
    then have p: "push b ?x = (True, b\<lparr>bytes := bytes b @ [?x]\<rparr>)"
      by (simp add: push_room)
    with True have "length (bytes (b\<lparr>bytes := bytes b @ [?x]\<rparr>))
        \<le> length (bytes (snd (serialize_fixed_loop (i + 8) v (b\<lparr>bytes := bytes b @ [?x]\<rparr>))))"
      by (intro "1.IH") simp_all
    with True p show ?thesis
      by (subst serialize_fixed_loop.simps) simp
  next
    case False
    then show ?thesis
      by (subst serialize_fixed_loop.simps) (auto simp: push_full not_less)
  qed
qed

lemma serialize_fixed_first:
  fixes v :: "'a::len word"
  assumes "length (bytes b) < max_size b"
  shows "length (bytes b) < length (bytes (snd (serialize_fixed v b)))"
proof -
  let ?x = "ucast (drop_bit 0 v AND 0xFF) :: byte"
  let ?b = "b\<lparr>bytes := bytes b @ [?x]\<rparr>"
  have "push b ?x = (True, ?b)" using assms by (rule push_room)
  then have "serialize_fixed v b = serialize_fixed_loop 8 v ?b"
    unfolding serialize_fixed_def by (subst serialize_fixed_loop.simps) simp
  moreover have "length (bytes ?b) \<le> length (bytes (snd (serialize_fixed_loop 8 v ?b)))"
    by (rule serialize_fixed_loop_grows)
  ultimately show ?thesis by simp
qed

lemma serialize_writes_or_fails:
  fixes f :: "'a::len word FieldFixed"
  assumes "\<not> equals_default f" and "get_size b < get_max_size b"
  shows "serialize f b \<noteq> (OK, b)"
proof (cases "serialized_size f \<le> get_max_size b")
  case False
  with assms(1) show ?thesis by (simp add: serialize_def)
next
  case True
  let ?b1 = "snd (serialize_varint (tag_bytes f) b)"
  have s: "snd (serialize f b) = snd (serialize_fixed (data f) ?b1)"
    using assms(1) True by (simp add: serialize_def split: prod.splits)
  have g1: "length (bytes b) \<le> length (bytes ?b1)" by (rule serialize_varint_grows)
  have "length (bytes b) < length (bytes (snd (serialize_fixed (data f) ?b1)))"
  proof (cases "length (bytes ?b1) < max_size ?b1")
    case True
    then have "length (bytes ?b1) < length (bytes (snd (serialize_fixed (data f) ?b1)))"
      by (rule serialize_fixed_first)
    with g1 show ?thesis by simp
  next
    case False
    have "max_size ?b1 = max_size b" by (rule serialize_varint_max_size)
    with False assms(2) have "length (bytes b) < length (bytes ?b1)"
      by (simp add: get_size_def get_max_size_def)
    moreover have "length (bytes ?b1) \<le> length (bytes (snd (serialize_fixed (data f) ?b1)))"
      unfolding serialize_fixed_def by (rule serialize_fixed_loop_grows)
    ultimately show ?thesis by simp
  qed
  with s have "length (bytes (snd (serialize f b))) \<noteq> length (bytes b)" by simp
  then show ?thesis by auto
qed

section \<open>The claims\<close>




text \<open>
  C2 asks that \<open>serialize\<close> fail exactly when the tag and the payload need more than the
  remaining capacity of the buffer, and that a value needing one byte more than the
  remaining capacity leave the byte count as it was. The check of \<open>serialize\<close> reads
  \<^verbatim>\<open>get_max_size()\<close>. On a buffer of maximum size 8 that holds 4 bytes, a \<^verbatim>\<open>fixed32\<close> field
  with a one-byte tag needs 5 bytes and has 4: \<open>serialize\<close> returns \<open>OK\<close>, and the buffer
  holds the tag and three of the four payload bytes.
\<close>

theorem serialize_into_partly_filled_buffer:
  "remaining_capacity \<lparr>bytes = [0xAA, 0xAA, 0xAA, 0xAA], max_size = 8\<rparr> = 4 \<and>
   serialized_size (set_value (fixed32 [0x0D]) 1) = 5 \<and>
   serialize (set_value (fixed32 [0x0D]) 1) \<lparr>bytes = [0xAA, 0xAA, 0xAA, 0xAA], max_size = 8\<rparr> =
     (OK, \<lparr>bytes = [0xAA, 0xAA, 0xAA, 0xAA, 0x0D, 0x01, 0x00, 0x00], max_size = 8\<rparr>)"
  by code_simp

text \<open>
  C3 asks that no push fail once the check of \<open>serialize\<close> has passed, and that a
  \<open>serialize\<close> returning \<open>OK\<close> have written the whole tag and payload. A \<^verbatim>\<open>fixed64\<close> field
  with a one-byte tag needs 9 bytes; on a buffer of maximum size 9 that holds one byte the
  check passes, the tag is pushed, the eighth push of \<^verbatim>\<open>_serialize_fixed\<close> fails, its result
  is dropped and \<open>serialize\<close> returns \<open>OK\<close> with seven payload bytes in the buffer.
\<close>

theorem serialize_push_fails_after_check:
  "serialized_size (set_value (fixed64 [0x09]) 0x0102030405060708)
     \<le> get_max_size \<lparr>bytes = [0xAA], max_size = 9\<rparr> \<and>
   serialize_varint [0x09] \<lparr>bytes = [0xAA], max_size = 9\<rparr> =
     (True, \<lparr>bytes = [0xAA, 0x09], max_size = 9\<rparr>) \<and>
   serialize_fixed (0x0102030405060708 :: 64 word) \<lparr>bytes = [0xAA, 0x09], max_size = 9\<rparr> =
     (False, \<lparr>bytes = [0xAA, 0x09, 0x08, 0x07, 0x06, 0x05, 0x04, 0x03, 0x02], max_size = 9\<rparr>) \<and>
   serialize (set_value (fixed64 [0x09]) 0x0102030405060708) \<lparr>bytes = [0xAA], max_size = 9\<rparr> =
     (OK, \<lparr>bytes = [0xAA, 0x09, 0x08, 0x07, 0x06, 0x05, 0x04, 0x03, 0x02], max_size = 9\<rparr>)"
  by code_simp

text \<open>
  C4 asks that \<open>serialize\<close> write nothing and return \<open>OK\<close> exactly when the value lies in the
  default window. The window is as the claim has it (\<open>equals_default_integer\<close>,
  \<open>equals_default_float32_zeros\<close>), and on every buffer with a free byte the equivalence
  holds (\<open>serialize_writes_or_fails\<close>). On a full buffer whose maximum size passes the check
  it does not: the \<^verbatim>\<open>sfixed32\<close> value 1 is outside the window, every push fails, and
  \<open>serialize\<close> returns \<open>OK\<close> with the buffer as it was.
\<close>

theorem serialize_into_full_buffer:
  "\<not> equals_default (set_value (sfixed32 [0x0D]) 1) \<and>
   serialized_size (set_value (sfixed32 [0x0D]) 1) \<le> get_max_size \<lparr>bytes = [1, 2, 3, 4, 5], max_size = 5\<rparr> \<and>
   serialize (set_value (sfixed32 [0x0D]) 1) \<lparr>bytes = [1, 2, 3, 4, 5], max_size = 5\<rparr> =
     (OK, \<lparr>bytes = [1, 2, 3, 4, 5], max_size = 5\<rparr>)"
  by code_simp

text \<open>
  C5. On the two admitted widths, \<^verbatim>\<open>_serialize_fixed\<close> into a buffer with room appends, for
  \<open>i = 0, 8, \<dots>\<close> below the width, the byte \<^verbatim>\<open>(value >> i) & 0xFF\<close>, least significant byte
  first; \<^verbatim>\<open>_deserialize_fixed\<close> on those bytes pops exactly them and returns the value. The
  32-bit value \<open>0x01020304\<close> is packed as \<open>[0x04, 0x03, 0x02, 0x01]\<close>, and these four bytes
  are unpacked to \<open>0x01020304\<close>.
\<close>

theorem packing_little_endian:
  fixes v :: "'a::len word"
  assumes "LENGTH('a) = 32 \<or> LENGTH('a) = 64"
  shows "(get_size b + LENGTH('a) div 8 \<le> get_max_size b \<longrightarrow>
            serialize_fixed v b =
              (True, b\<lparr>bytes := bytes b @
                 map (\<lambda>k. ucast (drop_bit (8 * k) v AND 0xFF)) [0..<LENGTH('a) div 8]\<rparr>)) \<and>
         deserialize_fixed d
             (b\<lparr>bytes := map (\<lambda>k. ucast (drop_bit (8 * k) v AND 0xFF)) [0..<LENGTH('a) div 8] @ rest\<rparr>) =
           (True, v, b\<lparr>bytes := rest\<rparr>) \<and>
         serialize_fixed (0x01020304 :: 32 word) \<lparr>bytes = [], max_size = 4\<rparr> =
           (True, \<lparr>bytes = [0x04, 0x03, 0x02, 0x01], max_size = 4\<rparr>) \<and>
         deserialize_fixed 0 \<lparr>bytes = [0x04, 0x03, 0x02, 0x01], max_size = 4\<rparr> =
           (True, 0x01020304 :: 32 word, \<lparr>bytes = [], max_size = 4\<rparr>)"
proof -
  have d: "8 dvd LENGTH('a)" using assms by (rule width_dvd)
  have 1: "get_size b + LENGTH('a) div 8 \<le> get_max_size b \<longrightarrow>
            serialize_fixed v b =
              (True, b\<lparr>bytes := bytes b @
                 map (\<lambda>k. ucast (drop_bit (8 * k) v AND 0xFF)) [0..<LENGTH('a) div 8]\<rparr>)"
    using serialize_fixed_room [OF d, of b v]
    by (simp add: get_size_def get_max_size_def little_endian_def)
  let ?b = "b\<lparr>bytes := map (\<lambda>k. ucast (drop_bit (8 * k) v AND 0xFF)) [0..<LENGTH('a) div 8] @ rest\<rparr>"
  have "bytes ?b = little_endian v @ rest" by (simp add: little_endian_def)
  with d have "deserialize_fixed d ?b = (True, v, ?b\<lparr>bytes := rest\<rparr>)"
    by (rule deserialize_fixed_bytes)
  then have 2: "deserialize_fixed d ?b = (True, v, b\<lparr>bytes := rest\<rparr>)" by simp
  have 3: "serialize_fixed (0x01020304 :: 32 word) \<lparr>bytes = [], max_size = 4\<rparr> =
           (True, \<lparr>bytes = [0x04, 0x03, 0x02, 0x01], max_size = 4\<rparr>)"
    by code_simp
  have 4: "deserialize_fixed 0 \<lparr>bytes = [0x04, 0x03, 0x02, 0x01], max_size = 4\<rparr> =
           (True, 0x01020304 :: 32 word, \<lparr>bytes = [], max_size = 4\<rparr>)"
    by code_simp
  from 1 2 3 4 show ?thesis by blast
qed

text \<open>A witness on the 64-bit width, into a buffer that already holds a tag byte.\<close>

theorem packing_little_endian_witness:
  "serialize_fixed (0x1122334455667788 :: 64 word) \<lparr>bytes = [0x09], max_size = 9\<rparr> =
     (True, \<lparr>bytes = [0x09, 0x88, 0x77, 0x66, 0x55, 0x44, 0x33, 0x22, 0x11], max_size = 9\<rparr>) \<and>
   deserialize_fixed 0 \<lparr>bytes = [0x88, 0x77, 0x66, 0x55, 0x44, 0x33, 0x22, 0x11, 0xFF], max_size = 9\<rparr> =
     (True, 0x1122334455667788 :: 64 word, \<lparr>bytes = [0xFF], max_size = 9\<rparr>)"
proof -
  have w: "LENGTH(64) = 32 \<or> LENGTH(64) = 64" by simp
  have l: "map (\<lambda>k. ucast (drop_bit (8 * k) (0x1122334455667788 :: 64 word) AND 0xFF)) [0..<LENGTH(64) div 8]
           = [0x88, 0x77, 0x66, 0x55, 0x44, 0x33, 0x22, 0x11 :: byte]"
    by code_simp
  have r: "get_size \<lparr>bytes = [0x09], max_size = 9\<rparr> + LENGTH(64) div 8 \<le> get_max_size \<lparr>bytes = [0x09], max_size = 9\<rparr>"
    by (simp add: get_size_def get_max_size_def)
  show ?thesis
    using packing_little_endian [OF w, of "\<lparr>bytes = [0x09], max_size = 9\<rparr>" "0x1122334455667788" 0 "[0xFF]"] r
    unfolding l by simp
qed

text \<open>
  C6. When the buffer holds fewer bytes than \<open>serialized_data_size\<close>, \<open>deserialize\<close> returns
  \<open>ERROR_BUFFER_TO_SMALL\<close> and \<open>get\<close> returns what it returned before; and whenever
  \<open>deserialize\<close> does not return \<open>OK\<close>, the field is the one it was called on.
\<close>

theorem deserialize_underrun_keeps_value:
  "(get_size b < serialized_data_size f \<longrightarrow>
      fst (deserialize f b) = ERROR_BUFFER_TO_SMALL \<and> get (fst (snd (deserialize f b))) = get f) \<and>
   (fst (deserialize f b) \<noteq> OK \<longrightarrow> fst (snd (deserialize f b)) = f)"
  using deserialize_failure_keeps_field [of f b]
  by (simp add: deserialize_def serialized_data_size_def)

text \<open>A witness: three bytes offered to an \<^verbatim>\<open>sfixed32\<close> field that holds 7.\<close>

theorem deserialize_underrun_keeps_value_witness:
  "get_size \<lparr>bytes = [1, 2, 3], max_size = 8\<rparr> < serialized_data_size (set_value (sfixed32 [0x0D]) 7) \<and>
   fst (deserialize (set_value (sfixed32 [0x0D]) 7) \<lparr>bytes = [1, 2, 3], max_size = 8\<rparr>) = ERROR_BUFFER_TO_SMALL \<and>
   get (fst (snd (deserialize (set_value (sfixed32 [0x0D]) 7) \<lparr>bytes = [1, 2, 3], max_size = 8\<rparr>))) = 7"
proof -
  let ?f = "set_value (sfixed32 [0x0D]) 7"
  let ?b = "\<lparr>bytes = [1, 2, 3], max_size = 8\<rparr>"
  have h: "get_size ?b < serialized_data_size ?f"
    by (simp add: get_size_def serialized_data_size_def N_BYTES_IN_FIXED_def)
  have g: "get ?f = 7" by (simp add: get_def set_value_def)
  show ?thesis
    using h deserialize_underrun_keeps_value [of ?b ?f] unfolding g by blast
qed

text \<open>
  C7, as the code has it. \<open>serialize\<close> and \<open>deserialize\<close> return \<open>OK\<close> or
  \<open>ERROR_BUFFER_TO_SMALL\<close> and nothing else.
\<close>

theorem result_kinds:
  "fst (serialize f b) \<in> {OK, ERROR_BUFFER_TO_SMALL} \<and>
   fst (deserialize g c) \<in> {OK, ERROR_BUFFER_TO_SMALL}"
  using serialize_result [of f b] deserialize_result [of g c] by simp

text \<open>
  C7 as stated asks for two distinct failure discriminants. A \<open>serialize\<close> that fails for
  lack of capacity and a \<open>deserialize\<close> that fails for lack of bytes return the same value,
  \<^verbatim>\<open>Result::ERROR_BUFFER_TO_SMALL\<close>.
\<close>

theorem result_kinds_counterexample:
  "fst (serialize (set_value (fixed32 [0x0D]) 1) \<lparr>bytes = [], max_size = 4\<rparr>) \<noteq> OK \<and>
   fst (deserialize (fixed32 [0x0D]) \<lparr>bytes = [1, 2, 3], max_size = 4\<rparr>) \<noteq> OK \<and>
   fst (serialize (set_value (fixed32 [0x0D]) 1) \<lparr>bytes = [], max_size = 4\<rparr>) =
   fst (deserialize (fixed32 [0x0D]) \<lparr>bytes = [1, 2, 3], max_size = 4\<rparr>)"
  by code_simp

text \<open>
  C8. \<open>serialized_data_size\<close> is 4 on the 32-bit width and 8 on the 64-bit width, whatever
  the field holds and whatever its tag, also after \<open>clear\<close>.
\<close>

theorem serialized_data_size_constant:
  "serialized_data_size (f32 :: 32 word FieldFixed) = 4 \<and>
   serialized_data_size (f64 :: 64 word FieldFixed) = 8 \<and>
   serialized_data_size (clear f32) = 4 \<and>
   serialized_data_size (clear f64) = 8"
  by (simp add: serialized_data_size_def N_BYTES_IN_FIXED_def)

text \<open>
  C9. A field whose value lies in the default window is serialized as nothing: \<open>serialize\<close>
  returns \<open>OK\<close> and the buffer it was given, whatever the buffer, since the comparison with
  the default comes before the capacity check and before any push.
\<close>

theorem serialize_default_elided:
  "equals_default f \<Longrightarrow> serialize f b = (OK, b)"
  by (simp add: serialize_def)

text \<open>A witness: the \<^verbatim>\<open>float\<close> value -0.0 and a buffer with no capacity left.\<close>

theorem serialize_default_elided_witness:
  "equals_default (set_value (float32 [0x0D]) 0x80000000) \<and>
   remaining_capacity \<lparr>bytes = [1, 2, 3], max_size = 3\<rparr> = 0 \<and>
   serialize (set_value (float32 [0x0D]) 0x80000000) \<lparr>bytes = [1, 2, 3], max_size = 3\<rparr> =
     (OK, \<lparr>bytes = [1, 2, 3], max_size = 3\<rparr>)"
proof -
  have d: "equals_default (set_value (float32 [0x0D]) 0x80000000)" by code_simp
  have r: "remaining_capacity \<lparr>bytes = [1, 2, 3], max_size = 3\<rparr> = 0"
    by (simp add: remaining_capacity_def get_size_def get_max_size_def)
  show ?thesis
    using d r serialize_default_elided [OF d, of "\<lparr>bytes = [1, 2, 3], max_size = 3\<rparr>"] by simp
qed

text \<open>
  C10. When the buffer holds fewer bytes than the payload width, \<open>deserialize\<close> returns the
  buffer it was given: the size check comes first and \<^verbatim>\<open>_deserialize_fixed\<close> is not run.
\<close>

theorem deserialize_underrun_pops_nothing:
  "get_size b < N_BYTES_IN_FIXED f \<Longrightarrow> snd (snd (deserialize f b)) = b"
  by (simp add: deserialize_def)

text \<open>A witness: seven bytes offered to a \<^verbatim>\<open>double\<close> field.\<close>

theorem deserialize_underrun_pops_nothing_witness:
  "get_size \<lparr>bytes = [1, 2, 3, 4, 5, 6, 7], max_size = 8\<rparr> < N_BYTES_IN_FIXED (double64 [0x09]) \<and>
   snd (snd (deserialize (double64 [0x09]) \<lparr>bytes = [1, 2, 3, 4, 5, 6, 7], max_size = 8\<rparr>)) =
     \<lparr>bytes = [1, 2, 3, 4, 5, 6, 7], max_size = 8\<rparr>"
proof -
  have h: "get_size \<lparr>bytes = [1, 2, 3, 4, 5, 6, 7], max_size = 8\<rparr> < N_BYTES_IN_FIXED (double64 [0x09])"
    by (simp add: get_size_def N_BYTES_IN_FIXED_def)
  show ?thesis
    using h deserialize_underrun_pops_nothing [OF h] by simp
qed

end
